theory Spec2Isabelle
  imports Complex_Main "HOL-Library.Sublist" "HOL-Library.AList"
begin

section \<open>Data shared by the server and the client\<close>

text \<open>
  File contents are byte strings; paths are relative paths written with \<open>/\<close> (the
  POSIX value of \<open>os.sep\<close>), in the normal form \<open>os.path.relpath\<close> produces, so that a
  path string names one file. \<open>hashlib.md5(...).hexdigest()\<close> is not computed here: every
  function that hashes takes the digest function \<open>h\<close> as a parameter.
\<close>

type_synonym bytes = string
type_synonym path = string
type_synonym key = string

text \<open>
  A parsed JSON value as \<open>collect_download_tasks\<close> and \<open>count_server_files\<close> see it:
  a dict (in iteration order), a string, or anything else (\<open>isinstance(v, dict)\<close> is false
  and the value never equals an MD5 string).
\<close>

datatype jval = JStr string | JDict "(string \<times> jval) list" | JOther

text \<open>A zip container: the members in the order they were written.\<close>

type_synonym archive = "(path \<times> bytes) list"

text \<open>
  HTTP as the two programs use it. A request is the unquoted URL path, whether the query
  has \<open>download\<close> and \<open>json\<close>, and the \<open>Range: bytes=N-\<close> header if sent. A reply is a
  status, a body, and where the body stream broke off (\<open>Some n\<close>: the connection was lost
  after \<open>n\<close> bytes; \<open>None\<close>: the body arrived whole). \<open>NoReply\<close> is a transport error
  before any status. The HTML pages are kept abstract.
\<close>

datatype page = Homepage "key list" | FolderListing key path | ClientUpdatePage

datatype payload =
    FileBody bytes
  | ArchiveBody archive
  | HtmlBody page
  | JsonBody jval
  | NamesBody "key list"
  | ErrorBody string

record request =
  req_path :: path
  req_download :: bool
  req_json :: bool
  req_range :: "nat option"

datatype reply = NoReply | Reply nat payload "nat option"

datatype error =
    FileExistsError
  | NotADirectoryError
  | FileNotFoundError
  | IsADirectoryError
  | PermissionError
  | AttributeError

section \<open>The client (src/client/main.py)\<close>

text \<open>
  The destination folder of one key is a map from relative path to what is there; the
  folder itself is the entry at the empty path. \<open>LFile ok c\<close> is a regular file with
  content \<open>c\<close>; \<open>ok\<close> is false when \<open>open\<close> on it raises (permission denied, locked).
  \<open>dir_size\<close> is what \<open>os.path.getsize\<close> reports for a directory on the platform.
  \<open>out\<close> collects what is printed, \<open>sent\<close> the HTTP requests issued, oldest first.
\<close>

datatype local_entry = LFile bool bytes | LDir

datatype event =
    Checking key
  | ForceDelete
  | ZipDownload key
  | ZipExtracting
  | ZipDone
  | ZipFailed
  | DownloadDone key path
  | DownloadHttpFail key path nat
  | DownloadError key path
  | ChecksumDiff path
  | FileMissing path
  | Correct path
  | ListUnavailable key
  | ListFailed
  | EmptyServer key
  | RatioReport key
  | MajorityChanged
  | StartDownload nat
  | AllCorrect

record client =
  files :: "path \<Rightarrow> local_entry option"
  dir_size :: nat
  out :: "event list"
  sent :: "request list"

definition is_file :: "local_entry option \<Rightarrow> bool" where
  "is_file e = (case e of Some (LFile ok c) \<Rightarrow> True | _ \<Rightarrow> False)"

text \<open>\<open>get_md5\<close> of the client: the digest, or \<open>None\<close> when reading raises.\<close>

definition client_get_md5 :: "(bytes \<Rightarrow> string) \<Rightarrow> client \<Rightarrow> path \<Rightarrow> string option" where
  "client_get_md5 h st p =
     (case files st p of
        Some (LFile ok c) \<Rightarrow> (if ok then Some (h c) else None)
      | _ \<Rightarrow> None)"

text \<open>The directories above a path: for \<open>a/b/c\<close> the folder itself, \<open>a\<close> and \<open>a/b\<close>.\<close>

fun dir_prefixes :: "string \<Rightarrow> string \<Rightarrow> string list" where
  "dir_prefixes acc [] = []"
| "dir_prefixes acc (c # cs) =
     (if c = CHR ''/'' then acc # dir_prefixes (acc @ [c]) cs
      else dir_prefixes (acc @ [c]) cs)"

definition ancestors :: "path \<Rightarrow> path list" where
  "ancestors p = (if p = [] then [] else [] # dir_prefixes [] p)"

text \<open>\<open>os.path.dirname\<close> on a relative path.\<close>

definition dirname :: "path \<Rightarrow> path" where
  "dirname p =
     rev (dropWhile (\<lambda>c. c = CHR ''/'') (dropWhile (\<lambda>c. c \<noteq> CHR ''/'') (rev p)))"

text \<open>
  \<open>os.makedirs(p, exist_ok=...)\<close>: creates the directory and the missing ones above it;
  raises when a regular file is in the way, or when the directory exists and
  \<open>exist_ok\<close> is false.
\<close>

definition makedirs :: "bool \<Rightarrow> path \<Rightarrow> client \<Rightarrow> (error + unit) \<times> client" where
  "makedirs exist_ok p st =
     (if list_ex (\<lambda>a. is_file (files st a)) (ancestors p) then (Inl NotADirectoryError, st)
      else if is_file (files st p) then (Inl FileExistsError, st)
      else if files st p = Some LDir \<and> \<not> exist_ok then (Inl FileExistsError, st)
      else (Inr (), st\<lparr>files := fold (\<lambda>a f. f(a \<mapsto> LDir)) (ancestors p @ [p]) (files st)\<rparr>))"


subsection \<open>count_server_files\<close>


subsection \<open>collect_download_tasks\<close>

text \<open>
  The \<open>else\<close> branch of the loop body (lines 150 to 159): one entry that is not a dict.
  \<open>not local_md5\<close> holds for \<open>None\<close> and for the empty string.
\<close>

definition falsy :: "string option \<Rightarrow> bool" where
  "falsy m = (m = None \<or> m = Some [])"

definition differs :: "string option \<Rightarrow> jval \<Rightarrow> bool" where
  "differs m v = (case v of JStr s \<Rightarrow> m \<noteq> Some s | _ \<Rightarrow> True)"

definition check_file ::
  "(bytes \<Rightarrow> string) \<Rightarrow> path \<Rightarrow> jval \<Rightarrow> client \<Rightarrow> path list \<times> client" where
  "check_file h local_rel v st =
     (let local_md5 = (if files st local_rel \<noteq> None then client_get_md5 h st local_rel else None)
      in if falsy local_md5 \<or> differs local_md5 v then
           (if falsy local_md5
            then ([local_rel], st\<lparr>out := out st @ [FileMissing local_rel]\<rparr>)
            else ([local_rel], st\<lparr>files := (files st)(local_rel := None),
                                    out := out st @ [ChecksumDiff local_rel]\<rparr>))
         else ([], st\<lparr>out := out st @ [Correct local_rel]\<rparr>))"

function collect_download_tasks ::
  "(bytes \<Rightarrow> string) \<Rightarrow> (string \<times> jval) list \<Rightarrow> path \<Rightarrow> client \<Rightarrow> (error + path list) \<times> client"
where
  "collect_download_tasks h [] rel_path st = (Inr [], st)"
| "collect_download_tasks h ((name, v) # rest) rel_path st =
     (let local_rel = (if rel_path \<noteq> [] then rel_path @ ''/'' @ name else name) in
      case v of
        JDict d \<Rightarrow>
          (case makedirs True local_rel st of
             (Inl e, st1) \<Rightarrow> (Inl e, st1)
           | (Inr u, st1) \<Rightarrow>
               (case collect_download_tasks h d local_rel st1 of
                  (Inl e, st2) \<Rightarrow> (Inl e, st2)
                | (Inr sub, st2) \<Rightarrow>
                    (case collect_download_tasks h rest rel_path st2 of
                       (Inl e, st3) \<Rightarrow> (Inl e, st3)
                     | (Inr others, st3) \<Rightarrow> (Inr (sub @ others), st3))))
      | _ \<Rightarrow>
          (case check_file h local_rel v st of
             (task, st1) \<Rightarrow>
               (case collect_download_tasks h rest rel_path st1 of
                  (Inl e, st2) \<Rightarrow> (Inl e, st2)
                | (Inr others, st2) \<Rightarrow> (Inr (task @ others), st2))))"
  by pat_completeness auto
termination
  by (relation "measure (\<lambda>(h, m, rel_path, st). size_list (size_prod (\<lambda>_. 0) size) m)") auto

subsection \<open>download_and_extract_zip\<close>



definition archive_request :: "key \<Rightarrow> request" where
  "archive_request k =
     \<lparr>req_path = ''/'' @ k, req_download = True, req_json = False, req_range = None\<rparr>"


subsection \<open>download_file\<close>

text \<open>
  The bytes \<open>r.iter_content\<close> yields: the file's bytes for a file body, and the encoding
  \<open>enc\<close> of any other body (a page, a JSON document, a zip file), which is a parameter.
\<close>

definition body_bytes :: "(payload \<Rightarrow> bytes) \<Rightarrow> payload \<Rightarrow> bytes" where
  "body_bytes enc b = (case b of FileBody c \<Rightarrow> c | _ \<Rightarrow> enc b)"

definition file_request :: "key \<Rightarrow> path \<Rightarrow> nat option \<Rightarrow> request" where
  "file_request k file_path rng =
     \<lparr>req_path = ''/'' @ k @ ''/'' @ file_path, req_download = True, req_json = False,
      req_range = rng\<rparr>"

definition getsize :: "client \<Rightarrow> local_entry \<Rightarrow> nat" where
  "getsize st e = (case e of LFile ok c \<Rightarrow> length c | LDir \<Rightarrow> dir_size st)"

text \<open>
  The retry loop of \<open>download_file\<close> (lines 116 to 137), with the number of attempts left.
  Each attempt sends the request, numbered by how many requests went out before it, so
  that the network may answer differently from one attempt to the next.
\<close>

fun download_attempts ::
  "nat \<Rightarrow> (nat \<Rightarrow> request \<Rightarrow> reply) \<Rightarrow> (payload \<Rightarrow> bytes) \<Rightarrow> key \<Rightarrow> path \<Rightarrow> client \<Rightarrow> bool \<times> client"
where
  "download_attempts 0 net enc k file_path st = (False, st)"
| "download_attempts (Suc n) net enc k file_path st =
     (let existing = files st file_path;
          existing_size = (case existing of None \<Rightarrow> 0 | Some e \<Rightarrow> getsize st e);
          req = file_request k file_path
                  (case existing of None \<Rightarrow> None | Some e \<Rightarrow> Some existing_size);
          st1 = st\<lparr>sent := sent st @ [req]\<rparr>;
          failed = st1\<lparr>out := out st1 @ [DownloadError k file_path]\<rparr>
      in case net (length (sent st)) req of
           NoReply \<Rightarrow> download_attempts n net enc k file_path failed
         | Reply code body brk \<Rightarrow>
             if code = 200 \<or> code = 206 then
               (case existing of
                  Some LDir \<Rightarrow> download_attempts n net enc k file_path failed
                | Some (LFile False c) \<Rightarrow> download_attempts n net enc k file_path failed
                | _ \<Rightarrow>
                    (let old = (case existing of
                                  Some (LFile ok c) \<Rightarrow> (if 0 < existing_size then c else [])
                                | _ \<Rightarrow> [])
                     in case brk of
                          None \<Rightarrow>
                            (True, st1\<lparr>files := (files st1)
                                       (file_path \<mapsto> LFile True (old @ body_bytes enc body)),
                                     out := out st1 @ [DownloadDone k file_path]\<rparr>)
                        | Some m \<Rightarrow>
                            download_attempts n net enc k file_path
                              (failed\<lparr>files := (files st1)
                                 (file_path \<mapsto> LFile True (old @ take m (body_bytes enc body)))\<rparr>)))
             else download_attempts n net enc k file_path
                    (st1\<lparr>out := out st1 @ [DownloadHttpFail k file_path code]\<rparr>))"

definition download_file ::
  "(nat \<Rightarrow> request \<Rightarrow> reply) \<Rightarrow> (payload \<Rightarrow> bytes) \<Rightarrow> key \<Rightarrow> path \<Rightarrow> nat \<Rightarrow> client
     \<Rightarrow> (error + bool) \<times> client" where
  "download_file net enc k file_path max_retries st =
     (case makedirs True (dirname file_path) st of
        (Inl e, st1) \<Rightarrow> (Inl e, st1)
      | (Inr u, st1) \<Rightarrow>
          (case download_attempts max_retries net enc k file_path st1 of
             (b, st2) \<Rightarrow> (Inr b, st2)))"


subsection \<open>The main program, one folder\<close>





section \<open>The server (src/main.py)\<close>

text \<open>
  What is found at a folder path: a regular file (\<open>ok\<close> is false when \<open>open\<close> on it
  raises) or a directory with its entries in listing order.
\<close>

datatype node = File bool bytes | Dir "(string \<times> node) list"

definition IGNORE_PREFIXES :: "string list" where
  "IGNORE_PREFIXES = [''serveronly_'']"

definition IGNORE_NAMES :: "string list" where
  "IGNORE_NAMES = [''ignore_me.txt'']"

definition should_ignore :: "string \<Rightarrow> bool" where
  "should_ignore file_name =
     (list_ex (\<lambda>p. prefix p file_name) IGNORE_PREFIXES \<or> file_name \<in> set IGNORE_NAMES)"

text \<open>\<open>get_md5\<close> of the server: the digest, or the string \<open>error\<close> when reading raises.\<close>

definition get_md5 :: "(bytes \<Rightarrow> string) \<Rightarrow> bool \<Rightarrow> bytes \<Rightarrow> string" where
  "get_md5 h ok c = (if ok then h c else ''error'')"

subsection \<open>Walking a folder\<close>

definition os_join :: "path \<Rightarrow> string \<Rightarrow> path" where
  "os_join dirpath name = (if dirpath = [] then name else dirpath @ ''/'' @ name)"

fun files_of :: "(string \<times> node) list \<Rightarrow> (string \<times> bool \<times> bytes) list" where
  "files_of [] = []"
| "files_of ((n, File ok c) # r) = (n, ok, c) # files_of r"
| "files_of ((n, Dir sub) # r) = files_of r"

text \<open>
  \<open>os.walk\<close>, top down: a directory yields its own path (relative to the folder) with its
  regular files, then its subdirectories are walked in order. A path that is a regular
  file, or is not there, yields nothing.
\<close>

function walk_node :: "path \<Rightarrow> node \<Rightarrow> (path \<times> (string \<times> bool \<times> bytes) list) list"
  and walk_dirs :: "path \<Rightarrow> (string \<times> node) list \<Rightarrow> (path \<times> (string \<times> bool \<times> bytes) list) list"
where
  "walk_node dirpath (File ok c) = []"
| "walk_node dirpath (Dir ents) = (dirpath, files_of ents) # walk_dirs dirpath ents"
| "walk_dirs dirpath [] = []"
| "walk_dirs dirpath ((n, t) # r) = walk_node (os_join dirpath n) t @ walk_dirs dirpath r"
  by pat_completeness auto
termination
  by (relation "measure (\<lambda>x. case x of
         Inl (dirpath, t) \<Rightarrow> size t
       | Inr (dirpath, ents) \<Rightarrow> size_list (size_prod (\<lambda>_. 0) size) ents)") auto

text \<open>
  The files of a walk as the two loops over \<open>os.walk\<close> meet them: relative path, file
  name, whether the file can be read, and its content.
\<close>

definition walk_files :: "node option \<Rightarrow> (path \<times> string \<times> bool \<times> bytes) list" where
  "walk_files folder =
     (case folder of
        None \<Rightarrow> []
      | Some t \<Rightarrow>
          concat (map (\<lambda>(dirpath, fs). map (\<lambda>(n, ok, c). (os_join dirpath n, n, ok, c)) fs)
                      (walk_node [] t)))"

subsection \<open>scan_folder_dict and zip_folder\<close>

definition scan_folder_dict :: "(bytes \<Rightarrow> string) \<Rightarrow> node option \<Rightarrow> (path \<times> string) list" where
  "scan_folder_dict h folder =
     fold (\<lambda>(rel_path, n, ok, c) result.
             if should_ignore n then result
             else AList.update rel_path (get_md5 h ok c) result)
          (walk_files folder) []"

definition files_to_zip :: "node option \<Rightarrow> (path \<times> bool \<times> bytes) list" where
  "files_to_zip folder =
     map (\<lambda>(rel_path, n, ok, c). (rel_path, ok, c))
         (filter (\<lambda>(rel_path, n, ok, c). \<not> should_ignore n) (walk_files folder))"

text \<open>
  The loop of \<open>zip_folder\<close> over \<open>files_to_zip\<close>. \<open>zipf.write\<close> appends one member to
  the zip file; on a file it cannot open it raises, the \<open>with\<close> block closes the zip file
  and the exception leaves \<open>zip_folder\<close>. The second component is what the zip file
  holds when the loop ends, either way.
\<close>

fun zip_write :: "(path \<times> bool \<times> bytes) list \<Rightarrow> archive \<Rightarrow> (error + unit) \<times> archive" where
  "zip_write [] zipf = (Inr (), zipf)"
| "zip_write ((rel_path, ok, c) # r) zipf =
     (if ok then zip_write r (zipf @ [(rel_path, c)]) else (Inl PermissionError, zipf))"

text \<open>
  \<open>zip_folder(folder_path, zip_path)\<close>: \<open>ZipFile(zip_path, "w")\<close> opens the file at
  \<open>zip_path\<close> itself and empties it, then the loop writes into it. The progress output is
  left out.
\<close>

definition zip_folder :: "node option \<Rightarrow> (error + unit) \<times> archive" where
  "zip_folder folder = zip_write (files_to_zip folder) []"

subsection \<open>The cache\<close>

text \<open>
  The state of the server. \<open>folders\<close> is the dict of config.txt, in order, with what is
  at each folder path in place of the path (\<open>None\<close>: nothing is there). \<open>cache_files\<close> is
  the dict from key to \<open>cache_zip/<key>.zip\<close>, given by its keys; \<open>cache_dir\<close> is what file
  is at that path; \<open>hash_record_file\<close> is \<open>cache_zip/hash_record.json\<close>;
  \<open>client_update_dir\<close> is the clientupdate directory by file name; \<open>printed\<close> is the
  output. Folders and the cache directory are assumed not to overlap on disk.
\<close>

datatype record_file =
    NoRecord
  | BadRecord
  | Saved "(key \<times> (path \<times> string) list) list"

datatype server_event =
    CheckingCache
  | AllSame
  | Changed "key list"
  | CacheUpdated key
  | CacheFailed key error
  | CacheReady

record server =
  folders :: "(key \<times> node option) list"
  cache_files :: "key set"
  cache_dir :: "key \<Rightarrow> archive option"
  hash_record_file :: record_file
  client_update_dir :: "string \<Rightarrow> node option"
  printed :: "server_event list"

definition load_old_hash :: "server \<Rightarrow> (key \<times> (path \<times> string) list) list" where
  "load_old_hash s = (case hash_record_file s of Saved r \<Rightarrow> r | _ \<Rightarrow> [])"

definition save_hash_record :: "(key \<times> (path \<times> string) list) list \<Rightarrow> server \<Rightarrow> server" where
  "save_hash_record record s = s\<lparr>hash_record_file := Saved record\<rparr>"

text \<open>
  Two dicts are equal in Python when they map the same keys to equal values, whatever
  the order.
\<close>

definition dict_eq :: "('a \<times> 'b) list \<Rightarrow> ('a \<times> 'b) list \<Rightarrow> bool" where
  "dict_eq a b = list_all (\<lambda>k. map_of a k = map_of b k) (map fst a @ map fst b)"

text \<open>\<open>key not in old_hash or new_hash[key] != old_hash[key]\<close> (line 114).\<close>

definition changed_since ::
  "(key \<times> (path \<times> string) list) list \<Rightarrow> key \<Rightarrow> (path \<times> string) list \<Rightarrow> bool" where
  "changed_since old_hash k scanned =
     (case map_of old_hash k of
        None \<Rightarrow> True
      | Some recorded \<Rightarrow> \<not> dict_eq scanned recorded)"

text \<open>The first loop of \<open>create_zip_cache\<close> (lines 112 to 115).\<close>

fun scan_all ::
  "(bytes \<Rightarrow> string) \<Rightarrow> (key \<times> (path \<times> string) list) list \<Rightarrow> (key \<times> node option) list
     \<Rightarrow> (key \<times> (path \<times> string) list) list \<times> key list
     \<Rightarrow> (key \<times> (path \<times> string) list) list \<times> key list" where
  "scan_all h old_hash [] acc = acc"
| "scan_all h old_hash ((k, folder) # r) (new_hash, changed_keys) =
     scan_all h old_hash r
       (AList.update k (scan_folder_dict h folder) new_hash,
        if changed_since old_hash k (scan_folder_dict h folder)
        then changed_keys @ [k] else changed_keys)"

text \<open>
  The thread pool of lines 121 to 129: \<open>zip_folder\<close> once per changed key, each on its
  own zip file, run here in the order of \<open>changed_keys\<close>. An exception of one build is
  caught and printed for that key.
\<close>

definition folder_of :: "server \<Rightarrow> key \<Rightarrow> node option" where
  "folder_of s k = (case map_of (folders s) k of None \<Rightarrow> None | Some folder \<Rightarrow> folder)"

fun rebuild :: "key list \<Rightarrow> server \<Rightarrow> server" where
  "rebuild [] s = s"
| "rebuild (k # ks) s =
     (case zip_folder (folder_of s k) of
        (r, zipf) \<Rightarrow>
          rebuild ks
            (s\<lparr>cache_dir := (cache_dir s)(k \<mapsto> zipf),
               printed := printed s @
                 [case r of Inl e \<Rightarrow> CacheFailed k e | Inr u \<Rightarrow> CacheUpdated k]\<rparr>))"

definition create_zip_cache :: "(bytes \<Rightarrow> string) \<Rightarrow> server \<Rightarrow> server" where
  "create_zip_cache h s =
     (let s0 = s\<lparr>printed := printed s @ [CheckingCache]\<rparr>;
          scanned = scan_all h (load_old_hash s0) (folders s0) ([], []);
          new_hash = fst scanned;
          changed_keys = snd scanned;
          s1 = (if changed_keys = [] then s0\<lparr>printed := printed s0 @ [AllSame]\<rparr>
                else rebuild changed_keys (s0\<lparr>printed := printed s0 @ [Changed changed_keys]\<rparr>));
          s2 = s1\<lparr>cache_files := cache_files s1 \<union> set (map fst (folders s1))\<rparr>;
          s3 = save_hash_record new_hash s2
      in s3\<lparr>printed := printed s3 @ [CacheReady]\<rparr>)"

subsection \<open>The request handler\<close>

definition lstrip_slash :: "string \<Rightarrow> string" where
  "lstrip_slash p = dropWhile (\<lambda>c. c = CHR ''/'') p"

fun split_slash :: "string \<Rightarrow> string \<Rightarrow> string list" where
  "split_slash acc [] = [acc]"
| "split_slash acc (c # cs) =
     (if c = CHR ''/'' then acc # split_slash [] cs else split_slash (acc @ [c]) cs)"

text \<open>\<open>p.split("/", 1)\<close>: the part before the first slash, and the part after it if any.\<close>

definition split_once :: "string \<Rightarrow> string \<times> string option" where
  "split_once p =
     (takeWhile (\<lambda>c. c \<noteq> CHR ''/'') p,
      case dropWhile (\<lambda>c. c \<noteq> CHR ''/'') p of [] \<Rightarrow> None | c # r \<Rightarrow> Some r)"

definition basename :: "path \<Rightarrow> string" where
  "basename p = rev (takeWhile (\<lambda>c. c \<noteq> CHR ''/'') (rev p))"

text \<open>
  What \<open>os.path.join(folder_base, sub_path)\<close> names, found by walking the components of
  \<open>sub_path\<close> down from the folder; \<open>passed\<close> holds the directories gone through, nearest first.
  Every component, the empty one and \<open>.\<close> too, needs a directory to stand in. A path
  that leaves the folder (\<open>..\<close> at the folder itself, or an absolute \<open>sub_path\<close>) names
  something the state does not hold, and resolves to nothing here.
\<close>

fun resolve_in :: "node list \<Rightarrow> node \<Rightarrow> string list \<Rightarrow> node option" where
  "resolve_in passed cur [] = Some cur"
| "resolve_in passed (File ok c) (x # xs) = None"
| "resolve_in passed (Dir ents) (x # xs) =
     (if x = [] \<or> x = ''.'' then resolve_in passed (Dir ents) xs
      else if x = ''..'' then
        (case passed of [] \<Rightarrow> None | p # ps \<Rightarrow> resolve_in ps p xs)
      else (case map_of ents x of
              None \<Rightarrow> None
            | Some t \<Rightarrow> resolve_in (Dir ents # passed) t xs))"

definition resolve :: "node option \<Rightarrow> path \<Rightarrow> node option" where
  "resolve folder sub_path =
     (case folder of
        None \<Rightarrow> None
      | Some t \<Rightarrow> (if prefix ''/'' sub_path then None
                   else resolve_in [] t (split_slash [] sub_path)))"

text \<open>
  \<open>_send_file\<close> (lines 273 to 289) on what is at \<open>file_path\<close>, with the body the file
  holds: 404 when nothing is there; otherwise status 200 and the whole file. No request
  header is read. When the file cannot be opened the headers are out already and the
  exception ends the connection with no body byte sent.
\<close>

definition send_file :: "(bool \<times> payload) option \<Rightarrow> reply" where
  "send_file f =
     (case f of
        None \<Rightarrow> Reply 404 (ErrorBody ''not found'') None
      | Some (ok, body) \<Rightarrow> Reply 200 body (if ok then None else Some 0))"

definition send_homepage :: "server \<Rightarrow> reply" where
  "send_homepage s = Reply 200 (HtmlBody (Homepage (map fst (folders s)))) None"

text \<open>
  \<open>_send_json(files_md5)\<close>: the manifest dict as a JSON object, every value a string.
\<close>

definition json_entries :: "(path \<times> string) list \<Rightarrow> (string \<times> jval) list" where
  "json_entries m = map (\<lambda>(p, v). (p, JStr v)) m"

definition to_json :: "(path \<times> string) list \<Rightarrow> jval" where
  "to_json m = JDict (json_entries m)"

definition do_GET :: "(bytes \<Rightarrow> string) \<Rightarrow> server \<Rightarrow> request \<Rightarrow> reply" where
  "do_GET h s rq =
     (if prefix ''/clientupdate'' (req_path rq) then
        (let parts = lstrip_slash (drop (length ''/clientupdate/'') (req_path rq)) in
         if parts = [] then Reply 200 (HtmlBody ClientUpdatePage) None
         else (case client_update_dir s parts of
                 None \<Rightarrow> Reply 404 (ErrorBody (parts @ '' not found'')) None
               | Some (File ok c) \<Rightarrow> send_file (Some (ok, FileBody c))
               | Some (Dir ents) \<Rightarrow> send_file (Some (False, FileBody []))))
      else if lstrip_slash (req_path rq) = ''config_names'' \<and> req_json rq then
        Reply 200 (NamesBody (map fst (folders s))) None
      else
        (case split_once (lstrip_slash (req_path rq)) of
           (k, rest) \<Rightarrow>
             (case map_of (folders s) k of
                None \<Rightarrow> send_homepage s
              | Some folder_base \<Rightarrow>
                  (let sub_path = (case rest of None \<Rightarrow> [] | Some r \<Rightarrow> r) in
                   if should_ignore (basename sub_path)
                   then Reply 404 (ErrorBody ''File is ignored'') None
                   else
                     (case resolve folder_base sub_path of
                        None \<Rightarrow> send_homepage s
                      | Some (File ok c) \<Rightarrow> send_file (Some (ok, FileBody c))
                      | Some (Dir ents) \<Rightarrow>
                          if req_download rq then
                            (case (if k \<in> cache_files s then cache_dir s k else None) of
                               Some zipf \<Rightarrow> send_file (Some (True, ArchiveBody zipf))
                             | None \<Rightarrow> send_homepage s)
                          else if req_json rq then
                            Reply 200
                              (JsonBody (to_json
                                 (case map_of (load_old_hash s) k of
                                    Some m \<Rightarrow> m
                                  | None \<Rightarrow> scan_folder_dict h (Some (Dir ents)))))
                              None
                          else Reply 200 (HtmlBody (FolderListing k sub_path)) None)))))"

section \<open>Notions used to state the properties\<close>


text \<open>
  What \<open>collect_download_tasks\<close> prints for a manifest entry \<open>(path, hash)\<close> against a
  local state: the three outcomes of lines 150 to 159.
\<close>

definition verdict :: "(bytes \<Rightarrow> string) \<Rightarrow> client \<Rightarrow> path \<times> string \<Rightarrow> event" where
  "verdict h st e =
     (if falsy (client_get_md5 h st (fst e)) then FileMissing (fst e)
      else if client_get_md5 h st (fst e) = Some (snd e) then Correct (fst e)
      else ChecksumDiff (fst e))"

text \<open>
  The archive of a folder when every file could be written: one member for each file of
  the walk that is not ignored.
\<close>

definition whole_archive :: "node option \<Rightarrow> archive" where
  "whole_archive folder = map (\<lambda>(rel_path, ok, c). (rel_path, c)) (files_to_zip folder)"

section \<open>Properties\<close>

subsection \<open>Helper facts\<close>


lemma should_ignore_empty: "\<not> should_ignore []"
  by (simp add: should_ignore_def IGNORE_PREFIXES_def IGNORE_NAMES_def)

lemma split_once_no_slash:
  assumes "CHR ''/'' \<notin> set k"
  shows "split_once k = (k, None)"
proof -
  from assms have all: "\<forall>x\<in>set k. x \<noteq> CHR ''/''" by auto
  have d: "dropWhile (\<lambda>c. c \<noteq> CHR ''/'') k = []"
    using all by (simp add: dropWhile_eq_Nil_conv)
  have t: "takeWhile (\<lambda>c. c \<noteq> CHR ''/'') k = k"
    using all by (simp add: takeWhile_eq_all_conv)
  show ?thesis by (simp add: split_once_def d t)
qed

lemma lstrip_slash_no_slash:
  "CHR ''/'' \<notin> set k \<Longrightarrow> lstrip_slash (CHR ''/'' # k) = k"
  by (cases k) (auto simp: lstrip_slash_def)

lemma resolve_empty:
  "resolve folder [] = (case folder of Some (Dir ents) \<Rightarrow> Some (Dir ents) | _ \<Rightarrow> None)"
  by (auto simp: resolve_def split: option.splits node.splits)

subsection \<open>C1: resuming a partial file\<close>

text \<open>
  C1 says that a fetch resumed from a partial file of \<open>K\<close> bytes ends with a file
  byte-identical to the source, the server answering the range with 206 or sending the
  whole file with 200. Here the server of src/main.py holds \<open>a.txt\<close> with content
  \<open>abcd\<close> and the destination has the first two bytes. \<open>download_file\<close> sends
  \<open>Range: bytes=2-\<close>; \<open>_send_file\<close> reads no header and answers 200 with the whole
  file; \<open>download_file\<close> opens the destination in append mode because the partial file is
  not empty, and the file ends as \<open>ababcd\<close>: six bytes, not the four of the source.
\<close>

theorem download_file_resume_appends_whole_file:
  "do_GET id \<lparr>folders = [(''mods'', Some (Dir [(''a.txt'', File True ''abcd'')]))],
            cache_files = {}, cache_dir = (\<lambda>k. None), hash_record_file = NoRecord,
            client_update_dir = (\<lambda>n. None), printed = []\<rparr>
       (file_request ''mods'' ''a.txt'' (Some 2)) = Reply 200 (FileBody ''abcd'') None
   \<and> sent (snd (download_file
         (\<lambda>i. do_GET id \<lparr>folders = [(''mods'', Some (Dir [(''a.txt'', File True ''abcd'')]))],
            cache_files = {}, cache_dir = (\<lambda>k. None), hash_record_file = NoRecord,
            client_update_dir = (\<lambda>n. None), printed = []\<rparr>)
         (\<lambda>b. []) ''mods'' ''a.txt'' 3
         \<lparr>files = [[] \<mapsto> LDir, ''a.txt'' \<mapsto> LFile True ''ab''], dir_size = 4096,
          out = [], sent = []\<rparr>)) = [file_request ''mods'' ''a.txt'' (Some 2)]
   \<and> files (snd (download_file
         (\<lambda>i. do_GET id \<lparr>folders = [(''mods'', Some (Dir [(''a.txt'', File True ''abcd'')]))],
            cache_files = {}, cache_dir = (\<lambda>k. None), hash_record_file = NoRecord,
            client_update_dir = (\<lambda>n. None), printed = []\<rparr>)
         (\<lambda>b. []) ''mods'' ''a.txt'' 3
         \<lparr>files = [[] \<mapsto> LDir, ''a.txt'' \<mapsto> LFile True ''ab''], dir_size = 4096,
          out = [], sent = []\<rparr>)) ''a.txt'' = Some (LFile True ''ababcd'')"
  by code_simp

subsection \<open>C10: the archive request when no archive file is there\<close>

text \<open>
  C10, as stated, for every registered key: a request for \<open>/{key}?download=1\<close> whose
  archive file is missing is answered with status 200 and the homepage, not 404. It
  fails for a key that starts with \<open>clientupdate\<close>: the handler tests
  \<open>path.startswith("/clientupdate")\<close> first, and for the registered key
  \<open>clientupdatemods\<close> it looks for the file \<open>ods\<close> in the clientupdate directory and
  answers 404.
\<close>

theorem do_GET_clientupdate_key_counterexample:
  "map_of (folders \<lparr>folders = [(''clientupdatemods'', Some (Dir []))],
            cache_files = {}, cache_dir = (\<lambda>k. None), hash_record_file = NoRecord,
            client_update_dir = (\<lambda>n. None), printed = []\<rparr>) ''clientupdatemods''
     = Some (Some (Dir []))
   \<and> do_GET id \<lparr>folders = [(''clientupdatemods'', Some (Dir []))],
            cache_files = {}, cache_dir = (\<lambda>k. None), hash_record_file = NoRecord,
            client_update_dir = (\<lambda>n. None), printed = []\<rparr>
         (archive_request ''clientupdatemods'')
       = Reply 404 (ErrorBody ''ods not found'') None"
  by (simp add: do_GET_def archive_request_def lstrip_slash_def)

text \<open>
  C10 as amended: for a registered key with no slash in it that does not start with
  \<open>clientupdate\<close>, the request \<open>/{key}?download=1\<close> with no archive file on disk is
  answered with status 200 and the homepage, whatever is at the folder path.
\<close>

theorem do_GET_missing_archive_homepage:
  assumes reg: "map_of (folders s) k \<noteq> None"
    and noslash: "CHR ''/'' \<notin> set k"
    and noupd: "\<not> prefix ''clientupdate'' k"
    and absent: "cache_dir s k = None"
  shows "do_GET h s (archive_request k) = Reply 200 (HtmlBody (Homepage (map fst (folders s)))) None"
proof -
  obtain folder_base where fb: "map_of (folders s) k = Some folder_base"
    using reg by auto
  have p: "\<not> prefix ''/clientupdate'' (''/'' @ k)"
    using noupd by simp
  show ?thesis
    using p fb absent
    by (simp add: do_GET_def archive_request_def lstrip_slash_no_slash [OF noslash]
        split_once_no_slash [OF noslash] basename_def should_ignore_empty resolve_empty
        send_homepage_def split: option.splits node.splits)
qed

theorem do_GET_missing_archive_homepage_witness:
  "map_of (folders \<lparr>folders = [(''mods'', Some (Dir [(''a.txt'', File True ''abcd'')]))],
            cache_files = {''mods''}, cache_dir = (\<lambda>k. None), hash_record_file = NoRecord,
            client_update_dir = (\<lambda>n. None), printed = []\<rparr>) ''mods'' \<noteq> None
   \<and> do_GET id \<lparr>folders = [(''mods'', Some (Dir [(''a.txt'', File True ''abcd'')]))],
            cache_files = {''mods''}, cache_dir = (\<lambda>k. None), hash_record_file = NoRecord,
            client_update_dir = (\<lambda>n. None), printed = []\<rparr> (archive_request ''mods'')
       = Reply 200 (HtmlBody (Homepage [''mods''])) None"
  using do_GET_missing_archive_homepage
    [of "\<lparr>folders = [(''mods'', Some (Dir [(''a.txt'', File True ''abcd'')]))],
            cache_files = {''mods''}, cache_dir = (\<lambda>k. None), hash_record_file = NoRecord,
            client_update_dir = (\<lambda>n. None), printed = []\<rparr>" "''mods''" id]
  by simp

subsection \<open>The diff on a flat manifest\<close>

lemma client_get_md5_absent: "files st p = None \<Longrightarrow> client_get_md5 h st p = None"
  by (simp add: client_get_md5_def)

lemma check_file_verdict:
  "check_file h p (JStr v) st =
     (if verdict h st (p, v) = Correct p then ([], st\<lparr>out := out st @ [Correct p]\<rparr>)
      else if verdict h st (p, v) = FileMissing p
        then ([p], st\<lparr>out := out st @ [FileMissing p]\<rparr>)
      else ([p], st\<lparr>files := (files st)(p := None), out := out st @ [ChecksumDiff p]\<rparr>))"
  by (auto simp: check_file_def verdict_def differs_def Let_def client_get_md5_absent falsy_def)

lemma verdict_cong:
  "files st1 (fst e) = files st (fst e) \<Longrightarrow> verdict h st1 e = verdict h st e"
  by (simp add: verdict_def client_get_md5_def)

lemma collect_flat:
  "distinct (map fst m) \<Longrightarrow>
   collect_download_tasks h (json_entries m) [] st =
     (Inr (map fst (filter (\<lambda>e. verdict h st e \<noteq> Correct (fst e)) m)),
      st\<lparr>files := (\<lambda>q. if ChecksumDiff q \<in> set (map (verdict h st) m) then None else files st q),
         out := out st @ map (verdict h st) m\<rparr>)"
proof (induction m arbitrary: st)
  case Nil
  then show ?case by (simp add: json_entries_def)
next
  case (Cons e m)
  obtain p v where e: "e = (p, v)" by (cases e)
  from Cons.prems have dm: "distinct (map fst m)" and pm: "p \<notin> fst ` set m"
    by (auto simp: e)
  obtain task st1 where cf: "check_file h p (JStr v) st = (task, st1)"
    by (cases "check_file h p (JStr v) st")
  have same: "\<And>q. q \<noteq> p \<Longrightarrow> files st1 q = files st q"
    using cf by (auto simp: check_file_verdict split: if_splits)
  have vs: "\<And>x. x \<in> set m \<Longrightarrow> verdict h st1 x = verdict h st x"
    using same pm by (intro verdict_cong) (auto simp: image_iff)
  have mapv: "map (verdict h st1) m = map (verdict h st) m"
    using vs by simp
  have filt: "filter (\<lambda>e. verdict h st1 e \<noteq> Correct (fst e)) m
            = filter (\<lambda>e. verdict h st e \<noteq> Correct (fst e)) m"
    using vs by (intro filter_cong) auto
  have notp: "ChecksumDiff p \<notin> set (map (verdict h st) m)"
    using pm by (auto simp: verdict_def image_iff split: if_splits)
  have step: "collect_download_tasks h (json_entries (e # m)) [] st =
      (case collect_download_tasks h (json_entries m) [] st1 of
         (Inl er, st2) \<Rightarrow> (Inl er, st2)
       | (Inr others, st2) \<Rightarrow> (Inr (task @ others), st2))"
    by (simp add: json_entries_def e cf)
  show ?case
    unfolding step Cons.IH [OF dm, of st1] mapv filt
    using cf notp
    by (auto simp: check_file_verdict e verdict_def fun_eq_iff split: if_splits)
qed



subsection \<open>C6: what the diff does with each manifest entry\<close>



subsection \<open>What the diff leaves alone\<close>








subsection \<open>C9: the diff deletes nothing outside the manifest\<close>



subsection \<open>Fetching and extracting the archive\<close>











subsection \<open>C8: a forced folder is always replaced from the archive\<close>



subsection \<open>Requests sent by the itemized fetch\<close>









subsection \<open>C5: the archive is fetched exactly when more than half of the files changed\<close>



subsection \<open>What a rebuild pass leaves behind\<close>

lemma zip_write_all:
  "zip_write xs zipf =
     (if list_all (\<lambda>(p, ok, c). ok) xs
      then (Inr (), zipf @ map (\<lambda>(p, ok, c). (p, c)) xs)
      else (Inl PermissionError,
            zipf @ map (\<lambda>(p, ok, c). (p, c)) (takeWhile (\<lambda>(p, ok, c). ok) xs)))"
  by (induction xs zipf rule: zip_write.induct) auto

lemma zip_folder_ok:
  "fst (zip_folder folder) = Inr () \<Longrightarrow> snd (zip_folder folder) = whole_archive folder"
  by (simp add: zip_folder_def whole_archive_def zip_write_all split: if_splits)

lemma zip_folder_failed:
  "fst (zip_folder folder) = Inl e \<Longrightarrow>
   e = PermissionError \<and>
   snd (zip_folder folder) =
     map (\<lambda>(p, ok, c). (p, c)) (takeWhile (\<lambda>(p, ok, c). ok) (files_to_zip folder))"
  by (simp add: zip_folder_def zip_write_all split: if_splits)

lemma folder_of_cong: "folders s1 = folders s \<Longrightarrow> folder_of s1 k = folder_of s k"
  by (simp add: folder_of_def)

lemma rebuild_effect:
  "folders (rebuild ks s) = folders s
   \<and> hash_record_file (rebuild ks s) = hash_record_file s
   \<and> cache_files (rebuild ks s) = cache_files s
   \<and> client_update_dir (rebuild ks s) = client_update_dir s
   \<and> cache_dir (rebuild ks s) =
       (\<lambda>k. if k \<in> set ks then Some (snd (zip_folder (folder_of s k))) else cache_dir s k)
   \<and> printed (rebuild ks s) = printed s @
       map (\<lambda>k. case fst (zip_folder (folder_of s k)) of
                   Inl e \<Rightarrow> CacheFailed k e | Inr u \<Rightarrow> CacheUpdated k) ks"
proof (induction ks arbitrary: s)
  case Nil
  then show ?case by simp
next
  case (Cons k ks)
  obtain r zipf where z: "zip_folder (folder_of s k) = (r, zipf)"
    by (cases "zip_folder (folder_of s k)")
  define s1 where "s1 = s\<lparr>cache_dir := (cache_dir s)(k \<mapsto> zipf),
               printed := printed s @
                 [case r of Inl e \<Rightarrow> CacheFailed k e | Inr u \<Rightarrow> CacheUpdated k]\<rparr>"
  have step: "rebuild (k # ks) s = rebuild ks s1"
    using z by (simp add: s1_def)
  have fo: "\<And>x. folder_of s1 x = folder_of s x"
    by (rule folder_of_cong) (simp add: s1_def)
  have f1: "folders s1 = folders s" "hash_record_file s1 = hash_record_file s"
    "cache_files s1 = cache_files s" "client_update_dir s1 = client_update_dir s"
    "cache_dir s1 = (cache_dir s)(k \<mapsto> zipf)"
    "printed s1 = printed s @ [case r of Inl e \<Rightarrow> CacheFailed k e | Inr u \<Rightarrow> CacheUpdated k]"
    by (simp_all add: s1_def)
  have zk: "snd (zip_folder (folder_of s k)) = zipf" "fst (zip_folder (folder_of s k)) = r"
    using z by simp_all
  have ih: "folders (rebuild ks s1) = folders s1
   \<and> hash_record_file (rebuild ks s1) = hash_record_file s1
   \<and> cache_files (rebuild ks s1) = cache_files s1
   \<and> client_update_dir (rebuild ks s1) = client_update_dir s1
   \<and> cache_dir (rebuild ks s1) =
       (\<lambda>k. if k \<in> set ks then Some (snd (zip_folder (folder_of s k))) else cache_dir s1 k)
   \<and> printed (rebuild ks s1) = printed s1 @
       map (\<lambda>k. case fst (zip_folder (folder_of s k)) of
                   Inl e \<Rightarrow> CacheFailed k e | Inr u \<Rightarrow> CacheUpdated k) ks"
    using Cons.IH [of s1] by (simp only: fo)
  have cd: "(\<lambda>x. if x \<in> set ks then Some (snd (zip_folder (folder_of s x))) else cache_dir s1 x)
      = (\<lambda>x. if x \<in> set (k # ks) then Some (snd (zip_folder (folder_of s x))) else cache_dir s x)"
    by (auto simp: f1 zk fun_eq_iff)
  show ?case
    unfolding step using ih by (simp add: f1 zk cd)
qed




lemma create_zip_cache_effect:
  "folders (create_zip_cache h s) = folders s
   \<and> hash_record_file (create_zip_cache h s) =
       Saved (fst (scan_all h (load_old_hash s) (folders s) ([], [])))
   \<and> cache_files (create_zip_cache h s) = cache_files s \<union> set (map fst (folders s))
   \<and> cache_dir (create_zip_cache h s) =
       (\<lambda>k. if k \<in> set (snd (scan_all h (load_old_hash s) (folders s) ([], [])))
            then Some (snd (zip_folder (folder_of s k))) else cache_dir s k)
   \<and> set (map (\<lambda>k. case fst (zip_folder (folder_of s k)) of
                   Inl e \<Rightarrow> CacheFailed k e | Inr u \<Rightarrow> CacheUpdated k)
             (snd (scan_all h (load_old_hash s) (folders s) ([], []))))
       \<subseteq> set (printed (create_zip_cache h s))"
proof -
  define s0 where "s0 = s\<lparr>printed := printed s @ [CheckingCache]\<rparr>"
  define ch where "ch = snd (scan_all h (load_old_hash s) (folders s) ([], []))"
  define nh where "nh = fst (scan_all h (load_old_hash s) (folders s) ([], []))"
  define s0' where "s0' = s0\<lparr>printed := printed s0 @ [Changed ch]\<rparr>"
  define s1 where "s1 = (if ch = [] then s0\<lparr>printed := printed s0 @ [AllSame]\<rparr>
                else rebuild ch s0')"
  have l: "load_old_hash s0 = load_old_hash s" by (simp add: load_old_hash_def s0_def)
  have f0: "folders s0 = folders s" by (simp add: s0_def)
  have fo: "\<And>x. folder_of s0' x = folder_of s x"
    by (rule folder_of_cong) (simp add: s0'_def s0_def)
  have c: "create_zip_cache h s =
      (save_hash_record nh (s1\<lparr>cache_files := cache_files s1 \<union> set (map fst (folders s1))\<rparr>))
        \<lparr>printed := printed (save_hash_record nh
             (s1\<lparr>cache_files := cache_files s1 \<union> set (map fst (folders s1))\<rparr>)) @ [CacheReady]\<rparr>"
    by (simp add: create_zip_cache_def Let_def s0_def [symmetric] l f0 ch_def [symmetric]
        nh_def [symmetric] s1_def s0'_def)
  have s1_fields: "folders s1 = folders s \<and> cache_files s1 = cache_files s
      \<and> cache_dir s1 = (\<lambda>k. if k \<in> set ch then Some (snd (zip_folder (folder_of s k)))
                             else cache_dir s k)
      \<and> set (map (\<lambda>k. case fst (zip_folder (folder_of s k)) of
                   Inl e \<Rightarrow> CacheFailed k e | Inr u \<Rightarrow> CacheUpdated k) ch) \<subseteq> set (printed s1)"
  proof (cases "ch = []")
    case True
    then show ?thesis by (simp add: s1_def s0_def)
  next
    case False
    then have e: "s1 = rebuild ch s0'" by (simp add: s1_def)
    have f0': "folders s0' = folders s" "cache_files s0' = cache_files s"
      "cache_dir s0' = cache_dir s" "printed s0' = printed s @ [CheckingCache, Changed ch]"
      by (simp_all add: s0'_def s0_def)
    have fo': "(\<lambda>k. if k \<in> set ch then Some (snd (zip_folder (folder_of s0' k)))
                   else cache_dir s0' k)
        = (\<lambda>k. if k \<in> set ch then Some (snd (zip_folder (folder_of s k))) else cache_dir s k)"
      by (rule ext) (simp add: fo f0')
    have re: "folders (rebuild ch s0') = folders s
       \<and> cache_files (rebuild ch s0') = cache_files s
       \<and> cache_dir (rebuild ch s0') =
           (\<lambda>k. if k \<in> set ch then Some (snd (zip_folder (folder_of s k))) else cache_dir s k)
       \<and> printed (rebuild ch s0') = printed s @ [CheckingCache, Changed ch] @
           map (\<lambda>k. case fst (zip_folder (folder_of s k)) of
                   Inl e \<Rightarrow> CacheFailed k e | Inr u \<Rightarrow> CacheUpdated k) ch"
      using rebuild_effect [of ch s0'] by (simp only: fo fo' f0' append_assoc)
    show ?thesis
      unfolding e using re by auto
  qed
  show ?thesis
    unfolding c ch_def [symmetric] nh_def [symmetric]
    using s1_fields by (auto simp: save_hash_record_def)
qed

subsection \<open>The manifest of a scan\<close>

lemma scan_fold_other:
  "rel \<notin> fst ` set xs \<Longrightarrow>
   map_of (fold (\<lambda>(rel_path, n, ok, c) result.
             if should_ignore n then result
             else AList.update rel_path (get_md5 h ok c) result) xs acc) rel = map_of acc rel"
proof (induction xs arbitrary: acc)
  case Nil
  then show ?case by simp
next
  case (Cons x xs)
  obtain p n ok c where x: "x = (p, n, ok, c)" by (cases x)
  have ne: "p \<noteq> rel" and rest: "rel \<notin> fst ` set xs" using Cons.prems by (auto simp: x)
  show ?case
    using Cons.IH [OF rest] ne by (simp add: x update_conv')
qed

lemma scan_fold_entry:
  "distinct (map fst xs) \<Longrightarrow> (rel, n, ok, c) \<in> set xs \<Longrightarrow> \<not> should_ignore n \<Longrightarrow>
   map_of (fold (\<lambda>(rel_path, n, ok, c) result.
             if should_ignore n then result
             else AList.update rel_path (get_md5 h ok c) result) xs acc) rel
     = Some (get_md5 h ok c)"
proof (induction xs arbitrary: acc)
  case Nil
  then show ?case by simp
next
  case (Cons x xs)
  show ?case
  proof (cases "x = (rel, n, ok, c)")
    case True
    have "rel \<notin> fst ` set xs" using Cons.prems(1) True by auto
    then show ?thesis
      using Cons.prems(3) by (simp add: True scan_fold_other update_conv')
  next
    case False
    then have "(rel, n, ok, c) \<in> set xs" using Cons.prems(2) by simp
    moreover have "distinct (map fst xs)" using Cons.prems(1) by simp
    ultimately show ?thesis using Cons.IH Cons.prems(3) by simp
  qed
qed

lemma scan_fold_distinct:
  "distinct (map fst acc) \<Longrightarrow>
   distinct (map fst (fold (\<lambda>(rel_path, n, ok, c) result.
             if should_ignore n then result
             else AList.update rel_path (get_md5 h ok c) result) xs acc))"
proof (induction xs arbitrary: acc)
  case Nil
  then show ?case by simp
next
  case (Cons x xs)
  obtain p n ok c where x: "x = (p, n, ok, c)" by (cases x)
  show ?case
    using Cons.IH Cons.prems by (simp add: x distinct_update)
qed

lemma scan_folder_dict_distinct: "distinct (map fst (scan_folder_dict h folder))"
  unfolding scan_folder_dict_def by (rule scan_fold_distinct) simp

subsection \<open>C7: a file that cannot be read\<close>

text \<open>
  C7, for a folder whose walk meets every relative path once and a digest function that
  never returns the string \<open>error\<close> (an MD5 hex digest has 32 characters). A file of
  the walk that is not ignored and cannot be read is recorded in the manifest under its
  path with the value \<open>error\<close>; the scan goes on, and every file of the walk that is
  not ignored is recorded with what \<open>get_md5\<close> returns for it. On the client, whatever
  the destination holds, the diff over that manifest ends without raising and the path
  recorded as \<open>error\<close> is among its tasks.
\<close>

theorem unreadable_file_sentinel_always_task:
  assumes w: "(rel, n, False, c) \<in> set (walk_files folder)"
    and ni: "\<not> should_ignore n"
    and d: "distinct (map fst (walk_files folder))"
    and nodigest: "\<And>c. h c \<noteq> ''error''"
  shows "map_of (scan_folder_dict h folder) rel = Some ''error''
     \<and> (\<forall>(rel', n', ok', c') \<in> set (walk_files folder).
           \<not> should_ignore n' \<longrightarrow>
           map_of (scan_folder_dict h folder) rel' = Some (get_md5 h ok' c'))
     \<and> (\<exists>tasks. fst (collect_download_tasks h (json_entries (scan_folder_dict h folder)) [] st)
                    = Inr tasks \<and> rel \<in> set tasks)"
proof -
  have all: "\<And>rel' n' ok' c'. (rel', n', ok', c') \<in> set (walk_files folder) \<Longrightarrow>
       \<not> should_ignore n' \<Longrightarrow>
       map_of (scan_folder_dict h folder) rel' = Some (get_md5 h ok' c')"
    unfolding scan_folder_dict_def by (rule scan_fold_entry [OF d])
  have e: "map_of (scan_folder_dict h folder) rel = Some ''error''"
    using all [OF w ni] by (simp add: get_md5_def)
  then have mem: "(rel, ''error'') \<in> set (scan_folder_dict h folder)"
    by (rule map_of_SomeD)
  have nc: "verdict h st (rel, ''error'') \<noteq> Correct (fst (rel, ''error''))"
    using nodigest
    by (auto simp: verdict_def client_get_md5_def split: option.splits local_entry.splits if_splits)
  have "rel \<in> set (map fst (filter (\<lambda>e. verdict h st e \<noteq> Correct (fst e))
                              (scan_folder_dict h folder)))"
    using mem nc by force
  then have t: "\<exists>tasks. fst (collect_download_tasks h (json_entries (scan_folder_dict h folder)) [] st)
                    = Inr tasks \<and> rel \<in> set tasks"
    by (simp add: collect_flat [OF scan_folder_dict_distinct])
  show ?thesis
    using e all t by auto
qed

theorem unreadable_file_sentinel_always_task_witness:
  "(''b.txt'', ''b.txt'', False, ''y'') \<in> set (walk_files (Some (Dir [(''a.txt'', File True ''x''), (''b.txt'', File False ''y'')])))
   \<and> map_of (scan_folder_dict (\<lambda>c. CHR ''#'' # c) (Some (Dir [(''a.txt'', File True ''x''), (''b.txt'', File False ''y'')]))) ''b.txt'' = Some ''error''
   \<and> map_of (scan_folder_dict (\<lambda>c. CHR ''#'' # c) (Some (Dir [(''a.txt'', File True ''x''), (''b.txt'', File False ''y'')]))) ''a.txt'' = Some ''#x''
   \<and> fst (collect_download_tasks (\<lambda>c. CHR ''#'' # c) (json_entries (scan_folder_dict (\<lambda>c. CHR ''#'' # c) (Some (Dir [(''a.txt'', File True ''x''), (''b.txt'', File False ''y'')])))) [] \<lparr>files = [[] \<mapsto> LDir, ''b.txt'' \<mapsto> LFile True ''y''], dir_size = 4096, out = [], sent = []\<rparr>)
       = Inr [''a.txt'', ''b.txt'']"
proof -
  have w: "(''b.txt'', ''b.txt'', False, ''y'') \<in> set (walk_files (Some (Dir [(''a.txt'', File True ''x''), (''b.txt'', File False ''y'')])))"
    by code_simp
  have ni: "\<not> should_ignore ''b.txt''"
    by code_simp
  have d: "distinct (map fst (walk_files (Some (Dir [(''a.txt'', File True ''x''), (''b.txt'', File False ''y'')]))))"
    by code_simp
  have nodigest: "\<And>c. (\<lambda>c. CHR ''#'' # c) c \<noteq> ''error''"
    by simp
  note main = unreadable_file_sentinel_always_task
      [where h = "(\<lambda>c. CHR ''#'' # c)" and st = "\<lparr>files = [[] \<mapsto> LDir, ''b.txt'' \<mapsto> LFile True ''y''], dir_size = 4096, out = [], sent = []\<rparr>", OF w ni d nodigest]
  have a: "map_of (scan_folder_dict (\<lambda>c. CHR ''#'' # c) (Some (Dir [(''a.txt'', File True ''x''), (''b.txt'', File False ''y'')]))) ''a.txt'' = Some ''#x''"
    by code_simp
  have t: "fst (collect_download_tasks (\<lambda>c. CHR ''#'' # c) (json_entries (scan_folder_dict (\<lambda>c. CHR ''#'' # c) (Some (Dir [(''a.txt'', File True ''x''), (''b.txt'', File False ''y'')])))) [] \<lparr>files = [[] \<mapsto> LDir, ''b.txt'' \<mapsto> LFile True ''y''], dir_size = 4096, out = [], sent = []\<rparr>)
       = Inr [''a.txt'', ''b.txt'']"
    by code_simp
  show ?thesis
    using main w a t by simp
qed

subsection \<open>C2: the hash record after a rebuild pass\<close>




subsection \<open>C3: a build that fails\<close>

text \<open>
  C3, as stated, ends with: a failed build leaves the previous archive of the key
  intact. Here \<open>mods\<close> has an archive and a record from an earlier pass; now its file
  \<open>b.txt\<close> cannot be read. The build raises, which is printed, and the zip file of
  \<open>mods\<close> holds the one member written before the failure: the previous archive is
  gone, because \<open>zip_folder\<close> opens the zip file of the key itself for writing.
\<close>

theorem failed_build_overwrites_previous_archive_counterexample:
  "cache_dir \<lparr>folders = [(''mods'', Some (Dir [(''a.txt'', File True ''v2''), (''b.txt'', File False ''v2'')]))],
        cache_files = {''mods''},
        cache_dir = (\<lambda>k. if k = ''mods'' then Some [(''a.txt'', ''v1''), (''b.txt'', ''v1'')] else None),
        hash_record_file = Saved [(''mods'', [(''a.txt'', ''v1''), (''b.txt'', ''v1'')])],
        client_update_dir = (\<lambda>n. None), printed = []\<rparr> ''mods'' = Some [(''a.txt'', ''v1''), (''b.txt'', ''v1'')]
   \<and> CacheFailed ''mods'' PermissionError \<in> set (printed (create_zip_cache id \<lparr>folders = [(''mods'', Some (Dir [(''a.txt'', File True ''v2''), (''b.txt'', File False ''v2'')]))],
        cache_files = {''mods''},
        cache_dir = (\<lambda>k. if k = ''mods'' then Some [(''a.txt'', ''v1''), (''b.txt'', ''v1'')] else None),
        hash_record_file = Saved [(''mods'', [(''a.txt'', ''v1''), (''b.txt'', ''v1'')])],
        client_update_dir = (\<lambda>n. None), printed = []\<rparr>))
   \<and> cache_dir (create_zip_cache id \<lparr>folders = [(''mods'', Some (Dir [(''a.txt'', File True ''v2''), (''b.txt'', File False ''v2'')]))],
        cache_files = {''mods''},
        cache_dir = (\<lambda>k. if k = ''mods'' then Some [(''a.txt'', ''v1''), (''b.txt'', ''v1'')] else None),
        hash_record_file = Saved [(''mods'', [(''a.txt'', ''v1''), (''b.txt'', ''v1'')])],
        client_update_dir = (\<lambda>n. None), printed = []\<rparr>) ''mods'' = Some [(''a.txt'', ''v2'')]"
  by code_simp

text \<open>
  C3 as amended: for every changed key, whatever happens to the builds of the other
  keys, the zip file of the key is what its own \<open>zip_folder\<close> call left; when that call
  raised, the failure is printed for the key and the zip file holds the members written
  before the file that could not be read (not the previous archive); when it did not,
  the update is printed and the zip file is the archive of all its files.
\<close>

theorem failed_build_is_logged_and_isolated:
  assumes "k \<in> set (snd (scan_all h (load_old_hash s) (folders s) ([], [])))"
  shows "cache_dir (create_zip_cache h s) k = Some (snd (zip_folder (folder_of s k)))
     \<and> (\<forall>e. fst (zip_folder (folder_of s k)) = Inl e \<longrightarrow>
           CacheFailed k e \<in> set (printed (create_zip_cache h s))
         \<and> cache_dir (create_zip_cache h s) k =
             Some (map (\<lambda>(p, ok, c). (p, c))
                    (takeWhile (\<lambda>(p, ok, c). ok) (files_to_zip (folder_of s k)))))
     \<and> (fst (zip_folder (folder_of s k)) = Inr () \<longrightarrow>
           CacheUpdated k \<in> set (printed (create_zip_cache h s))
         \<and> cache_dir (create_zip_cache h s) k = Some (whole_archive (folder_of s k)))"
proof -
  note eff = create_zip_cache_effect [of h s]
  have cd: "cache_dir (create_zip_cache h s) k = Some (snd (zip_folder (folder_of s k)))"
    using eff assms by simp
  have pr: "(case fst (zip_folder (folder_of s k)) of
               Inl e \<Rightarrow> CacheFailed k e | Inr u \<Rightarrow> CacheUpdated k)
            \<in> set (printed (create_zip_cache h s))"
    using eff assms by auto
  show ?thesis
    using cd pr zip_folder_ok [of "folder_of s k"] zip_folder_failed [of "folder_of s k"]
    by (auto split: sum.splits)
qed

theorem failed_build_is_logged_and_isolated_witness:
  "''cfg'' \<in> set (snd (scan_all id (load_old_hash \<lparr>folders = [(''mods'', Some (Dir [(''a.txt'', File True ''x''), (''serveronly_s'', File True ''y'')])),
                   (''cfg'', Some (Dir [(''b.txt'', File False ''z'')]))],
        cache_files = {}, cache_dir = (\<lambda>k. None), hash_record_file = NoRecord,
        client_update_dir = (\<lambda>n. None), printed = []\<rparr>) (folders \<lparr>folders = [(''mods'', Some (Dir [(''a.txt'', File True ''x''), (''serveronly_s'', File True ''y'')])),
                   (''cfg'', Some (Dir [(''b.txt'', File False ''z'')]))],
        cache_files = {}, cache_dir = (\<lambda>k. None), hash_record_file = NoRecord,
        client_update_dir = (\<lambda>n. None), printed = []\<rparr>) ([], [])))
   \<and> CacheFailed ''cfg'' PermissionError \<in> set (printed (create_zip_cache id \<lparr>folders = [(''mods'', Some (Dir [(''a.txt'', File True ''x''), (''serveronly_s'', File True ''y'')])),
                   (''cfg'', Some (Dir [(''b.txt'', File False ''z'')]))],
        cache_files = {}, cache_dir = (\<lambda>k. None), hash_record_file = NoRecord,
        client_update_dir = (\<lambda>n. None), printed = []\<rparr>))
   \<and> cache_dir (create_zip_cache id \<lparr>folders = [(''mods'', Some (Dir [(''a.txt'', File True ''x''), (''serveronly_s'', File True ''y'')])),
                   (''cfg'', Some (Dir [(''b.txt'', File False ''z'')]))],
        cache_files = {}, cache_dir = (\<lambda>k. None), hash_record_file = NoRecord,
        client_update_dir = (\<lambda>n. None), printed = []\<rparr>) ''cfg'' = Some []
   \<and> CacheUpdated ''mods'' \<in> set (printed (create_zip_cache id \<lparr>folders = [(''mods'', Some (Dir [(''a.txt'', File True ''x''), (''serveronly_s'', File True ''y'')])),
                   (''cfg'', Some (Dir [(''b.txt'', File False ''z'')]))],
        cache_files = {}, cache_dir = (\<lambda>k. None), hash_record_file = NoRecord,
        client_update_dir = (\<lambda>n. None), printed = []\<rparr>))
   \<and> cache_dir (create_zip_cache id \<lparr>folders = [(''mods'', Some (Dir [(''a.txt'', File True ''x''), (''serveronly_s'', File True ''y'')])),
                   (''cfg'', Some (Dir [(''b.txt'', File False ''z'')]))],
        cache_files = {}, cache_dir = (\<lambda>k. None), hash_record_file = NoRecord,
        client_update_dir = (\<lambda>n. None), printed = []\<rparr>) ''mods'' = Some [(''a.txt'', ''x'')]"
proof -
  have c1: "''cfg'' \<in> set (snd (scan_all id (load_old_hash \<lparr>folders = [(''mods'', Some (Dir [(''a.txt'', File True ''x''), (''serveronly_s'', File True ''y'')])),
                   (''cfg'', Some (Dir [(''b.txt'', File False ''z'')]))],
        cache_files = {}, cache_dir = (\<lambda>k. None), hash_record_file = NoRecord,
        client_update_dir = (\<lambda>n. None), printed = []\<rparr>) (folders \<lparr>folders = [(''mods'', Some (Dir [(''a.txt'', File True ''x''), (''serveronly_s'', File True ''y'')])),
                   (''cfg'', Some (Dir [(''b.txt'', File False ''z'')]))],
        cache_files = {}, cache_dir = (\<lambda>k. None), hash_record_file = NoRecord,
        client_update_dir = (\<lambda>n. None), printed = []\<rparr>) ([], [])))"
    by code_simp
  have c2: "''mods'' \<in> set (snd (scan_all id (load_old_hash \<lparr>folders = [(''mods'', Some (Dir [(''a.txt'', File True ''x''), (''serveronly_s'', File True ''y'')])),
                   (''cfg'', Some (Dir [(''b.txt'', File False ''z'')]))],
        cache_files = {}, cache_dir = (\<lambda>k. None), hash_record_file = NoRecord,
        client_update_dir = (\<lambda>n. None), printed = []\<rparr>) (folders \<lparr>folders = [(''mods'', Some (Dir [(''a.txt'', File True ''x''), (''serveronly_s'', File True ''y'')])),
                   (''cfg'', Some (Dir [(''b.txt'', File False ''z'')]))],
        cache_files = {}, cache_dir = (\<lambda>k. None), hash_record_file = NoRecord,
        client_update_dir = (\<lambda>n. None), printed = []\<rparr>) ([], [])))"
    by code_simp
  have z1: "fst (zip_folder (folder_of \<lparr>folders = [(''mods'', Some (Dir [(''a.txt'', File True ''x''), (''serveronly_s'', File True ''y'')])),
                   (''cfg'', Some (Dir [(''b.txt'', File False ''z'')]))],
        cache_files = {}, cache_dir = (\<lambda>k. None), hash_record_file = NoRecord,
        client_update_dir = (\<lambda>n. None), printed = []\<rparr> ''cfg'')) = Inl PermissionError"
    by code_simp
  have z2: "fst (zip_folder (folder_of \<lparr>folders = [(''mods'', Some (Dir [(''a.txt'', File True ''x''), (''serveronly_s'', File True ''y'')])),
                   (''cfg'', Some (Dir [(''b.txt'', File False ''z'')]))],
        cache_files = {}, cache_dir = (\<lambda>k. None), hash_record_file = NoRecord,
        client_update_dir = (\<lambda>n. None), printed = []\<rparr> ''mods'')) = Inr ()"
    by code_simp
  have p1: "map (\<lambda>(p, ok, c). (p, c))
              (takeWhile (\<lambda>(p, ok, c). ok) (files_to_zip (folder_of \<lparr>folders = [(''mods'', Some (Dir [(''a.txt'', File True ''x''), (''serveronly_s'', File True ''y'')])),
                   (''cfg'', Some (Dir [(''b.txt'', File False ''z'')]))],
        cache_files = {}, cache_dir = (\<lambda>k. None), hash_record_file = NoRecord,
        client_update_dir = (\<lambda>n. None), printed = []\<rparr> ''cfg''))) = []"
    by code_simp
  have wa: "whole_archive (folder_of \<lparr>folders = [(''mods'', Some (Dir [(''a.txt'', File True ''x''), (''serveronly_s'', File True ''y'')])),
                   (''cfg'', Some (Dir [(''b.txt'', File False ''z'')]))],
        cache_files = {}, cache_dir = (\<lambda>k. None), hash_record_file = NoRecord,
        client_update_dir = (\<lambda>n. None), printed = []\<rparr> ''mods'') = [(''a.txt'', ''x'')]"
    by code_simp
  note m1 = failed_build_is_logged_and_isolated [OF c1]
  note m2 = failed_build_is_logged_and_isolated [OF c2]
  show ?thesis
    using c1 m1 m2 z1 z2 p1 wa by auto
qed

subsection \<open>C4: what a download sees after a rebuild\<close>




end
